theory Spec2Isabelle
  imports Complex_Main
begin

section \<open>gpxsplit: tracks into routes of bounded length\<close>

text \<open>
  A shallow embedding of \<^verbatim>\<open>gpxsplit.py\<close>. The script reads GPX track files,
  cuts every track segment into slices of at most \<^verbatim>\<open>max_route_length\<close> points, turns
  each slice into a named route, gives unnamed points a numeric label, and writes the
  routes into one or several files.

  The GPX library (parsing, simplification, serialisation) is an external collaborator:
  an input file is modelled by its name and the tracks the loader returns for it, the
  simplifier is a function parameter, and a written file is modelled by its path and the
  list of routes of its document. The operating system (creating directories, opening
  and writing files) and the floating-point logarithm of the label width are parameters
  of the model as well. Python exceptions are values of type \<open>error\<close>; the exceptions
  of the loader are outside the model, which takes parsing to succeed.
\<close>

subsection \<open>Errors\<close>

datatype error = ValueError | FileNotFoundError

definition and_then :: "error + 'a \<Rightarrow> ('a \<Rightarrow> error + 'b) \<Rightarrow> error + 'b" where
  "and_then r f = (case r of Inl e \<Rightarrow> Inl e | Inr x \<Rightarrow> f x)"

subsection \<open>Data model\<close>

text \<open>
  A track point of the library: coordinates of an arbitrary type \<open>'c\<close> (the script never
  computes on them) and the optional name, the only field the script writes.
\<close>

record 'c point =
  latitude :: 'c
  longitude :: 'c
  elevation :: "'c option"
  name :: "string option"

type_synonym 'c segment = "'c point list"

type_synonym 'c track = "'c segment list"

record 'c route =
  route_name :: string
  route_points :: "'c point list"

text \<open>An opened input file: \<^verbatim>\<open>gpxfile.name\<close> and the tracks of \<^verbatim>\<open>gpxpy.parse(gpxfile)\<close>.\<close>

record 'c gpxfile =
  file_name :: string
  tracks :: "'c track list"

text \<open>
  The namespace \<^verbatim>\<open>args\<close> that \<^verbatim>\<open>parser.parse_args()\<close> returns; the field
  \<^verbatim>\<open>args.output\<close> is called \<open>output_name\<close> here. The flag \<^verbatim>\<open>--max_route_length\<close> is
  declared with \<^verbatim>\<open>type=int\<close> and nothing more, so the field is an arbitrary integer.
\<close>

record ('c, 'd) args =
  input :: "'c gpxfile list"
  output_name :: "string option"
  simplify :: bool
  output_dir :: string
  splitfiles :: bool
  max_distance :: 'd
  max_route_length :: int

subsection \<open>Python built-ins used by the script\<close>

text \<open>\<^verbatim>\<open>range(start, stop, step)\<close>: a zero step raises \<^verbatim>\<open>ValueError\<close>.\<close>

definition py_range :: "int \<Rightarrow> int \<Rightarrow> int \<Rightarrow> error + int list" where
  "py_range start stop step =
     (if step = 0 then Inl ValueError
      else if 0 < step then
        Inr (map (\<lambda>i. start + int i * step) [0..<nat ((stop - start + step - 1) div step)])
      else
        Inr (map (\<lambda>i. start + int i * step) [0..<nat ((start - stop - step - 1) div (- step))]))"

text \<open>
  \<^verbatim>\<open>xs[a:b]\<close>: a negative bound counts from the end, every bound is clamped to the
  list, and an empty interval gives the empty list.
\<close>

definition slice_bound :: "nat \<Rightarrow> int \<Rightarrow> nat" where
  "slice_bound n i = (if i < 0 then nat (max 0 (i + int n)) else min (nat i) n)"

definition py_slice :: "'a list \<Rightarrow> int \<Rightarrow> int \<Rightarrow> 'a list" where
  "py_slice xs a b =
     (let lo = slice_bound (length xs) a; hi = slice_bound (length xs) b
      in take (hi - lo) (drop lo xs))"

text \<open>\<^verbatim>\<open>str(n)\<close> for a natural number and for an integer.\<close>

definition digit_char :: "nat \<Rightarrow> char" where
  "digit_char d = ''0123456789'' ! d"

fun str_nat :: "nat \<Rightarrow> string" where
  "str_nat n = (if n < 10 then [digit_char n] else str_nat (n div 10) @ [digit_char (n mod 10)])"

declare str_nat.simps [simp del]

definition str_int :: "int \<Rightarrow> string" where
  "str_int i = (if i < 0 then CHR ''-'' # str_nat (nat (- i)) else str_nat (nat i))"

text \<open>
  The format \<^verbatim>\<open>f"{n:0{w}}"\<close> of a counter \<open>n\<close>: its decimal digits, filled with zeros
  on the left up to width \<open>w\<close>, never cut. The two counters of the script start at zero and
  only grow, so they are natural numbers.
\<close>

definition format_zero :: "nat \<Rightarrow> nat \<Rightarrow> string" where
  "format_zero w n = replicate (w - length (str_nat n)) CHR ''0'' @ str_nat n"

text \<open>
  \<^verbatim>\<open>math.ceil(math.log10(M))\<close>: \<^verbatim>\<open>math.log10\<close> raises \<^verbatim>\<open>ValueError\<close> for
  \<open>M \<le> 0\<close>. For \<open>M \<ge> 1\<close> it returns a floating-point number that is not negative, so
  the ceiling is a natural number; its value is the library's, the parameter \<open>clog\<close>
  (the rounding of the floating-point logarithm is not computed here).
\<close>

definition ceil_log10 :: "(int \<Rightarrow> nat) \<Rightarrow> int \<Rightarrow> error + nat" where
  "ceil_log10 clog M = (if M \<le> 0 then Inl ValueError else Inr (clog M))"

text \<open>\<^verbatim>\<open>p.rfind(c)\<close>: the last index of \<open>c\<close> in \<open>p\<close>, or \<open>-1\<close>.\<close>

definition rfind :: "string \<Rightarrow> char \<Rightarrow> int" where
  "rfind p c =
     (if c \<in> set p then int (length p) - 1 - int (length (takeWhile (\<lambda>x. x \<noteq> c) (rev p)))
      else - 1)"

text \<open>\<^verbatim>\<open>os.path.basename\<close>, \<^verbatim>\<open>os.path.dirname\<close>, \<^verbatim>\<open>os.path.splitext\<close> and
  \<^verbatim>\<open>os.path.join\<close> of two parts, for POSIX paths.\<close>

definition basename :: "string \<Rightarrow> string" where
  "basename p = drop (nat (rfind p CHR ''/'' + 1)) p"

definition rstrip_slash :: "string \<Rightarrow> string" where
  "rstrip_slash p = rev (dropWhile (\<lambda>x. x = CHR ''/'') (rev p))"

definition dirname :: "string \<Rightarrow> string" where
  "dirname p =
     (let head = take (nat (rfind p CHR ''/'' + 1)) p
      in if head \<noteq> [] \<and> head \<noteq> replicate (length head) CHR ''/'' then rstrip_slash head
         else head)"

definition splitext :: "string \<Rightarrow> string \<times> string" where
  "splitext p =
     (let sepIndex = rfind p CHR ''/''; dotIndex = rfind p CHR ''.''
      in if sepIndex < dotIndex
            \<and> list_ex (\<lambda>x. x \<noteq> CHR ''.'') (py_slice p (sepIndex + 1) dotIndex)
         then (take (nat dotIndex) p, drop (nat dotIndex) p)
         else (p, []))"

definition path_join :: "string \<Rightarrow> string \<Rightarrow> string" where
  "path_join a b =
     (if b \<noteq> [] \<and> hd b = CHR ''/'' then b
      else if a = [] \<or> last a = CHR ''/'' then a @ b
      else a @ ''/'' @ b)"

subsection \<open>The chunker\<close>

text \<open>
  The list comprehension of lines 115 to 118:
  \<^verbatim>\<open>[segment.points[start : start + M] for start in range(0, len(segment.points), M)]\<close>.
\<close>

definition subsegments :: "'a list \<Rightarrow> int \<Rightarrow> error + 'a list list" where
  "subsegments pts M =
     and_then (py_range 0 (int (length pts)) M)
       (\<lambda>starts. Inr (map (\<lambda>start. py_slice pts start (start + M)) starts))"

text \<open>
  The state of the loops: the two counters and the list \<^verbatim>\<open>routes_new\<close> that collects
  the routes of all input files.
\<close>

record 'c state =
  route_idx :: nat
  point_idx :: nat
  routes_new :: "'c route list"

text \<open>\<^verbatim>\<open>f"{route_idx:03}_{os.path.splitext(os.path.basename(gpxfile.name))[0]}"\<close>\<close>

definition routename :: "nat \<Rightarrow> string \<Rightarrow> string" where
  "routename ridx fname = format_zero 3 ridx @ ''_'' @ fst (splitext (basename fname))"

text \<open>
  The loop over the points of one slice (lines 127 to 130): the counter is incremented
  first; a point without a name gets the formatted counter. The width is computed only
  when a label is assigned, so its domain error can only arise there.
\<close>

definition label_point :: "(int \<Rightarrow> nat) \<Rightarrow> int \<Rightarrow> nat \<Rightarrow> 'c point \<Rightarrow> error + 'c point" where
  "label_point clog M pidx p =
     (case name p of
        None \<Rightarrow> and_then (ceil_log10 clog M) (\<lambda>w. Inr (p\<lparr>name := Some (format_zero w pidx)\<rparr>))
      | Some _ \<Rightarrow> Inr p)"

fun label_points ::
  "(int \<Rightarrow> nat) \<Rightarrow> int \<Rightarrow> nat \<Rightarrow> 'c point list \<Rightarrow> error + (nat \<times> 'c point list)" where
  "label_points clog M pidx [] = Inr (pidx, [])"
| "label_points clog M pidx (p # ps) =
     and_then (label_point clog M (pidx + 1) p) (\<lambda>p'.
     and_then (label_points clog M (pidx + 1) ps) (\<lambda>(pidx', ps').
     Inr (pidx', p' # ps')))"

text \<open>The loop over the slices of one segment (lines 122 to 135): one route per slice.\<close>

fun process_sublists ::
  "(int \<Rightarrow> nat) \<Rightarrow> int \<Rightarrow> string \<Rightarrow> 'c state \<Rightarrow> 'c point list list \<Rightarrow> error + 'c state" where
  "process_sublists clog M fname st [] = Inr st"
| "process_sublists clog M fname st (sublist # rest) =
     and_then (label_points clog M (point_idx st) sublist) (\<lambda>(pidx', pts).
     process_sublists clog M fname
       \<lparr>route_idx = route_idx st + 1, point_idx = pidx',
        routes_new = routes_new st @
          [\<lparr>route_name = routename (route_idx st) fname, route_points = pts\<rparr>]\<rparr>
       rest)"

definition process_segment ::
  "(int \<Rightarrow> nat) \<Rightarrow> int \<Rightarrow> string \<Rightarrow> 'c state \<Rightarrow> 'c segment \<Rightarrow> error + 'c state" where
  "process_segment clog M fname st seg =
     and_then (subsegments seg M) (process_sublists clog M fname st)"

fun process_segments ::
  "(int \<Rightarrow> nat) \<Rightarrow> int \<Rightarrow> string \<Rightarrow> 'c state \<Rightarrow> 'c segment list \<Rightarrow> error + 'c state" where
  "process_segments clog M fname st [] = Inr st"
| "process_segments clog M fname st (seg # segs) =
     and_then (process_segment clog M fname st seg)
       (\<lambda>st'. process_segments clog M fname st' segs)"

text \<open>Line 111: the point counter starts again at zero for every track.\<close>

definition process_track ::
  "(int \<Rightarrow> nat) \<Rightarrow> int \<Rightarrow> string \<Rightarrow> 'c state \<Rightarrow> 'c track \<Rightarrow> error + 'c state" where
  "process_track clog M fname st track =
     process_segments clog M fname (st\<lparr>point_idx := 0\<rparr>) track"

fun process_tracks ::
  "(int \<Rightarrow> nat) \<Rightarrow> int \<Rightarrow> string \<Rightarrow> 'c state \<Rightarrow> 'c track list \<Rightarrow> error + 'c state" where
  "process_tracks clog M fname st [] = Inr st"
| "process_tracks clog M fname st (track # rest) =
     and_then (process_track clog M fname st track)
       (\<lambda>st'. process_tracks clog M fname st' rest)"

text \<open>
  The body of the loop over the input files (lines 100 to 139). The simplifier
  \<open>smp\<close> stands for \<^verbatim>\<open>gpx.simplify(max_distance=...)\<close>, \<open>clog\<close> for the label width
  of the library. Line 109: the route counter starts again at zero for every input file.
\<close>

definition loaded_tracks ::
  "('d \<Rightarrow> 'c track list \<Rightarrow> 'c track list) \<Rightarrow> ('c, 'd) args \<Rightarrow> 'c gpxfile \<Rightarrow> 'c track list" where
  "loaded_tracks smp a f = (if simplify a then smp (max_distance a) (tracks f) else tracks f)"

definition process_file ::
  "('d \<Rightarrow> 'c track list \<Rightarrow> 'c track list) \<Rightarrow> (int \<Rightarrow> nat) \<Rightarrow> ('c, 'd) args \<Rightarrow> 'c state
     \<Rightarrow> 'c gpxfile \<Rightarrow> error + 'c state" where
  "process_file smp clog a st f =
     process_tracks clog (max_route_length a) (file_name f) (st\<lparr>route_idx := 0\<rparr>)
       (loaded_tracks smp a f)"

fun process_files ::
  "('d \<Rightarrow> 'c track list \<Rightarrow> 'c track list) \<Rightarrow> (int \<Rightarrow> nat) \<Rightarrow> ('c, 'd) args \<Rightarrow> 'c state
     \<Rightarrow> 'c gpxfile list \<Rightarrow> error + 'c state" where
  "process_files smp clog a st [] = Inr st"
| "process_files smp clog a st (f # fs) =
     and_then (process_file smp clog a st f) (\<lambda>st'. process_files smp clog a st' fs)"

text \<open>The state before the first input file; the counters are set inside the loops.\<close>

definition init_state :: "'c state" where
  "init_state = \<lparr>route_idx = 0, point_idx = 0, routes_new = []\<rparr>"

subsection \<open>Output names, the writer and the whole run\<close>

definition DEFAULT_OUTPUTNAME :: string where
  "DEFAULT_OUTPUTNAME = ''output.gpx''"

text \<open>Lines 76 to 89: the base name that replaces \<^verbatim>\<open>args.output\<close>.\<close>

definition resolve_output :: "('c, 'd) args \<Rightarrow> string" where
  "resolve_output a =
     (case output_name a of
        None \<Rightarrow>
          if length (input a) = 1 then fst (splitext (basename (file_name (input a ! 0))))
          else fst (splitext DEFAULT_OUTPUTNAME)
      | Some out \<Rightarrow> fst (splitext out))"

text \<open>
  The operating system, over a file system state of an arbitrary type \<open>'fs\<close>:
  \<open>makedirs path\<close> is \<^verbatim>\<open>os.makedirs(path, exist_ok=True)\<close>, and \<open>write_file path doc\<close>
  is \<^verbatim>\<open>with open(path, "w") as fp: fp.write(doc.to_xml())\<close> for the document that
  holds the routes \<open>doc\<close>. Either one returns the new state or the exception it raises.
\<close>

record ('c, 'fs) os =
  makedirs :: "string \<Rightarrow> 'fs \<Rightarrow> error + 'fs"
  write_file :: "string \<Rightarrow> 'c route list \<Rightarrow> 'fs \<Rightarrow> error + 'fs"

text \<open>
  Lines 141 to 160. A file to write is its path and the routes of the document that is
  serialised into it; \<open>write_outputs\<close> lists the files in the order the script writes
  them, and \<open>write_all\<close> writes them one after the other, up to the first exception.
\<close>

definition split_filename :: "nat \<Rightarrow> string \<Rightarrow> int \<Rightarrow> string" where
  "split_filename route_new_idx out M =
     str_nat route_new_idx @ ''_'' @ out @ ''_route_split'' @ str_int M @ ''.gpx''"

definition combined_filename :: "string \<Rightarrow> int \<Rightarrow> string" where
  "combined_filename out M = out @ ''_route_split'' @ str_int M @ ''.gpx''"

definition write_outputs ::
  "('c, 'd) args \<Rightarrow> string \<Rightarrow> 'c route list \<Rightarrow> (string \<times> 'c route list) list" where
  "write_outputs a out routes =
     (if splitfiles a then
        map (\<lambda>(route_new_idx, route_new).
               (path_join (output_dir a) (split_filename route_new_idx out (max_route_length a)),
                [route_new]))
          (enumerate 0 routes)
      else
        [(path_join (output_dir a) (combined_filename out (max_route_length a)), routes)])"

fun write_all ::
  "(string \<Rightarrow> 'c route list \<Rightarrow> 'fs \<Rightarrow> error + 'fs) \<Rightarrow> (string \<times> 'c route list) list \<Rightarrow> 'fs
     \<Rightarrow> error + 'fs" where
  "write_all wr [] fs = Inr fs"
| "write_all wr ((path, doc) # rest) fs = and_then (wr path doc fs) (write_all wr rest)"

text \<open>
  The script from line 73 on: create the directory \<^verbatim>\<open>os.path.dirname(args.output_dir)\<close>,
  resolve the output name, process the input files, write. The result is the exception that
  ends the run, or the final state of the file system and the files written.
\<close>

definition main ::
  "('c, 'fs) os \<Rightarrow> ('d \<Rightarrow> 'c track list \<Rightarrow> 'c track list) \<Rightarrow> (int \<Rightarrow> nat) \<Rightarrow> ('c, 'd) args \<Rightarrow> 'fs
     \<Rightarrow> error + ('fs \<times> (string \<times> 'c route list) list)" where
  "main sys smp clog a fs =
     and_then (makedirs sys (dirname (output_dir a)) fs) (\<lambda>fs1.
     and_then (process_files smp clog a init_state (input a)) (\<lambda>st.
     and_then (write_all (write_file sys) (write_outputs a (resolve_output a) (routes_new st)) fs1)
       (\<lambda>fs2.
     Inr (fs2, write_outputs a (resolve_output a) (routes_new st)))))"

subsection \<open>Notions used to state the properties\<close>

text \<open>
  The windowing rule of the specification: group \<open>k\<close> covers the indices from \<open>k * m\<close> up
  to \<open>min ((k + 1) * m) (length xs)\<close>, and there are \<open>\<lceil>length xs / m\<rceil>\<close> groups.
\<close>

definition windows :: "nat \<Rightarrow> 'a list \<Rightarrow> 'a list list" where
  "windows m xs = map (\<lambda>k. take m (drop (k * m) xs)) [0..<(length xs + m - 1) div m]"

text \<open>
  Label backfill as the specification words it: a point without a name gets the counter
  value in width \<open>w\<close>, a named point is left alone; \<open>backfill w k\<close> labels a sequence
  whose first point has the counter value \<open>k + 1\<close>.
\<close>

definition fill :: "nat \<Rightarrow> nat \<Rightarrow> 'c point \<Rightarrow> 'c point" where
  "fill w n p = (case name p of None \<Rightarrow> p\<lparr>name := Some (format_zero w n)\<rparr> | Some _ \<Rightarrow> p)"

fun backfill :: "nat \<Rightarrow> nat \<Rightarrow> 'c point list \<Rightarrow> 'c point list" where
  "backfill w k [] = []"
| "backfill w k (p # ps) = fill w (Suc k) p # backfill w (Suc k) ps"

text \<open>
  The routes of a list of groups, for the counters \<open>ri\<close> and \<open>pk\<close> before the first
  group, and the routes of the tracks of one file.
\<close>

fun routes_of :: "nat \<Rightarrow> string \<Rightarrow> nat \<Rightarrow> nat \<Rightarrow> 'c point list list \<Rightarrow> 'c route list" where
  "routes_of w f ri pk [] = []"
| "routes_of w f ri pk (s # ss) =
     \<lparr>route_name = routename ri f, route_points = backfill w pk s\<rparr>
       # routes_of w f (Suc ri) (pk + length s) ss"

fun routes_of_tracks :: "nat \<Rightarrow> nat \<Rightarrow> string \<Rightarrow> nat \<Rightarrow> 'c track list \<Rightarrow> 'c route list" where
  "routes_of_tracks w m f ri [] = []"
| "routes_of_tracks w m f ri (t # ts) =
     routes_of w f ri 0 (concat (map (windows m) t))
       @ routes_of_tracks w m f (ri + length (concat (map (windows m) t))) ts"

text \<open>
  The exact value \<open>\<lceil>log10 n\<rceil>\<close>, computed on natural numbers (lemma \<open>ceil_log10_real\<close>):
  what the label width of the library is wherever the floating-point logarithm is not
  rounded across an integer.
\<close>

fun ceil_log10_nat :: "nat \<Rightarrow> nat" where
  "ceil_log10_nat n = (if n \<le> 1 then 0 else Suc (ceil_log10_nat ((n + 9) div 10)))"

declare ceil_log10_nat.simps [simp del]

text \<open>Reading a decimal numeral, and the numeral in front of the first underscore.\<close>

definition digit_val :: "char \<Rightarrow> nat" where
  "digit_val c = of_char c - 48"

definition nat_of_digits :: "string \<Rightarrow> nat" where
  "nat_of_digits s = foldl (\<lambda>acc c. 10 * acc + digit_val c) 0 s"

definition numeric_prefix :: "string \<Rightarrow> nat" where
  "numeric_prefix s = nat_of_digits (takeWhile (\<lambda>c. c \<noteq> CHR ''_'') s)"

text \<open>
  \<open>same_place p q\<close>: the two points agree on every field but the name.
  \<open>backfilled p q\<close>: \<open>q\<close> is the point \<open>p\<close>, where at most a missing name was filled in.
\<close>

definition same_place :: "'c point \<Rightarrow> 'c point \<Rightarrow> bool" where
  "same_place p q \<longleftrightarrow>
     latitude q = latitude p \<and> longitude q = longitude p \<and> elevation q = elevation p"

definition backfilled :: "'c point \<Rightarrow> 'c point \<Rightarrow> bool" where
  "backfilled p q \<longleftrightarrow> same_place p q \<and> (name q = name p \<or> (name p = None \<and> name q \<noteq> None))"

text \<open>
  \<open>is_label w l\<close>: the string \<open>l\<close> is a positive counter value formatted in width \<open>w\<close>.
  \<open>relabelled w p q\<close>: \<open>q\<close> is the point \<open>p\<close> with its name kept, or, when \<open>p\<close> has no
  name, with such a label as its name.
\<close>

definition is_label :: "nat \<Rightarrow> string \<Rightarrow> bool" where
  "is_label w l \<longleftrightarrow> 0 < nat_of_digits l \<and> l = format_zero w (nat_of_digits l)"

definition relabelled :: "nat \<Rightarrow> 'c point \<Rightarrow> 'c point \<Rightarrow> bool" where
  "relabelled w p q \<longleftrightarrow>
     same_place p q \<and>
     (case name p of
        Some s \<Rightarrow> name q = Some s
      | None \<Rightarrow> (case name q of None \<Rightarrow> False | Some l \<Rightarrow> is_label w l))"

text \<open>The points of a file in their original order, and the points of a list of routes.\<close>

definition file_points :: "'c track list \<Rightarrow> 'c point list" where
  "file_points ts = concat (map concat ts)"

definition routes_points :: "'c route list \<Rightarrow> 'c point list" where
  "routes_points rs = concat (map route_points rs)"

text \<open>
  What a run leaves behind when it ends without an exception: the names of the routes and
  the names of their points, in generation order.
\<close>

definition run_route_names :: "error + 'c state \<Rightarrow> string list" where
  "run_route_names r = (case r of Inl e \<Rightarrow> [] | Inr st \<Rightarrow> map route_name (routes_new st))"

definition run_point_names :: "error + 'c state \<Rightarrow> string list" where
  "run_point_names r =
     (case r of Inl e \<Rightarrow> [] | Inr st \<Rightarrow> List.map_filter name (routes_points (routes_new st)))"

subsection \<open>Example inputs\<close>

text \<open>
  The collaborators of the example runs: no simplification; the exact label width, which
  is the library's at the maximal route lengths of the examples (1 for 2, and 3 for 250);
  and a fresh working directory, whose state is the set of the paths that
  \<^verbatim>\<open>os.makedirs\<close> has created: the empty path cannot be created, and a file can be
  written when its directory is the current one or is, as spelled, one of these paths.
\<close>

definition no_simplify :: "unit \<Rightarrow> nat track list \<Rightarrow> nat track list" where
  "no_simplify d ts = ts"

definition example_clog :: "int \<Rightarrow> nat" where
  "example_clog M = ceil_log10_nat (nat M)"

definition example_makedirs :: "string \<Rightarrow> string set \<Rightarrow> error + string set" where
  "example_makedirs path ds = (if path = [] then Inl FileNotFoundError else Inr (insert path ds))"

definition example_write_file ::
  "string \<Rightarrow> nat route list \<Rightarrow> string set \<Rightarrow> error + string set" where
  "example_write_file path doc ds =
     (if dirname path = [] \<or> dirname path \<in> ds then Inr ds else Inl FileNotFoundError)"

definition example_os :: "(nat, string set) os" where
  "example_os = \<lparr>makedirs = example_makedirs, write_file = example_write_file\<rparr>"

definition unnamed :: "nat \<Rightarrow> nat point" where
  "unnamed i = \<lparr>latitude = i, longitude = i, elevation = None, name = None\<rparr>"

definition named :: "nat \<Rightarrow> string \<Rightarrow> nat point" where
  "named i s = \<lparr>latitude = i, longitude = i, elevation = None, name = Some s\<rparr>"

definition example_args :: "nat gpxfile list \<Rightarrow> int \<Rightarrow> (nat, unit) args" where
  "example_args fs M =
     \<lparr>input = fs, output_name = None, simplify = False, output_dir = ''./'',
      splitfiles = False, max_distance = (), max_route_length = M\<rparr>"

definition one_point_file :: "string \<Rightarrow> nat gpxfile" where
  "one_point_file fname = \<lparr>file_name = fname, tracks = [[[unnamed 1]]]\<rparr>"

definition two_track_file :: "nat gpxfile" where
  "two_track_file = \<lparr>file_name = ''a.gpx'', tracks = [[[unnamed 1]], [[unnamed 2]]]\<rparr>"

definition three_point_file :: "nat gpxfile" where
  "three_point_file =
     \<lparr>file_name = ''a.gpx'', tracks = [[[unnamed 1, named 2 ''x'', unnamed 3]]]\<rparr>"

section \<open>Properties\<close>

subsection \<open>Slices and windows\<close>

lemma and_then_Inr [simp]: "and_then (Inr x) f = f x"
  by (simp add: and_then_def)

lemma and_then_Inl [simp]: "and_then (Inl e) f = Inl e"
  by (simp add: and_then_def)

lemma py_slice_nonneg:
  assumes "0 \<le> a" "a \<le> b"
  shows "py_slice xs a b = take (nat b - nat a) (drop (nat a) xs)"
proof (cases "nat a < length xs")
  case True
  have "min (nat b) (length xs) - nat a = min (nat b - nat a) (length (drop (nat a) xs))"
    using True by (simp add: min_def) arith
  moreover have "take (min (nat b - nat a) (length (drop (nat a) xs))) (drop (nat a) xs)
      = take (nat b - nat a) (drop (nat a) xs)"
    by (simp add: min_def)
  ultimately show ?thesis
    using assms True by (simp add: py_slice_def slice_bound_def Let_def)
next
  case False
  then show ?thesis
    using assms by (simp add: py_slice_def slice_bound_def)
qed

lemma count_pos:
  assumes "0 < M"
  shows "nat ((int L + M - 1) div M) = (L + nat M - 1) div nat M"
proof -
  have "0 \<le> int L + M - 1"
    using assms by linarith
  then have "nat ((int L + M - 1) div M) = nat (int L + M - 1) div nat M"
    by (rule nat_div_distrib)
  moreover have "nat (int L + M - 1) = L + nat M - 1"
    using assms by linarith
  ultimately show ?thesis
    by (simp only:)
qed

lemma subsegments_pos:
  assumes "0 < M"
  shows "subsegments pts M = Inr (windows (nat M) pts)"
proof -
  have "py_slice pts (int k * M) (int k * M + M) = take (nat M) (drop (k * nat M) pts)" for k
  proof -
    have "0 \<le> int k * M" "int k * M \<le> int k * M + M"
      using assms by simp_all
    then have "py_slice pts (int k * M) (int k * M + M)
        = take (nat (int k * M + M) - nat (int k * M)) (drop (nat (int k * M)) pts)"
      by (rule py_slice_nonneg)
    moreover have "nat (int k * M) = k * nat M"
      using assms by (simp add: nat_mult_distrib)
    moreover have "nat (int k * M + M) - nat (int k * M) = nat M"
      using assms by (simp add: nat_add_distrib)
    ultimately show ?thesis by simp
  qed
  then show ?thesis
    using assms by (simp add: subsegments_def py_range_def windows_def count_pos)
qed

lemma subsegments_zero: "subsegments pts 0 = Inl ValueError"
  by (simp add: subsegments_def py_range_def)

lemma subsegments_neg:
  assumes "M < 0"
  shows "subsegments pts M = Inr []"
proof -
  have "(- int (length pts) - M - 1) div (- M) \<le> 0"
  proof (cases "0 \<le> - int (length pts) - M - 1")
    case True
    then have "(- int (length pts) - M - 1) div (- M) = 0"
      by (intro div_pos_pos_trivial) simp_all
    then show ?thesis by simp
  next
    case False
    then have "(- int (length pts) - M - 1) div (- M) < 0"
      using assms by (intro div_neg_pos_less0) simp_all
    then show ?thesis by simp
  qed
  then show ?thesis
    using assms by (simp add: subsegments_def py_range_def)
qed



lemma nth_windows: "k < length (windows m xs) \<Longrightarrow> windows m xs ! k = take m (drop (k * m) xs)"
  by (simp add: windows_def)


lemma windows_cover:
  assumes "0 < m"
  shows "length xs \<le> ((length xs + m - 1) div m) * m"
  using dividend_less_div_times [OF assms, of "length xs + m - 1"] by linarith

lemma concat_windows_upto:
  "concat (map (\<lambda>k. take m (drop (k * m) xs)) [0..<n]) = take (n * m) xs"
proof (induction n)
  case 0
  show ?case by simp
next
  case (Suc n)
  have "take (Suc n * m) xs = take (n * m + m) xs"
    by (simp add: add.commute)
  also have "\<dots> = take (n * m) xs @ take m (drop (n * m) xs)"
    by (rule take_add)
  finally show ?case
    using Suc by simp
qed

lemma concat_windows:
  assumes "0 < m"
  shows "concat (windows m xs) = xs"
  using windows_cover [OF assms, of xs] by (simp add: windows_def concat_windows_upto)


lemma windows_Nil [simp]: "windows m [] = []"
  by (cases "m = 0") (simp_all add: windows_def)



subsection \<open>Labels and loops for a positive maximal route length\<close>

lemma ceil_log10_pos: "0 < M \<Longrightarrow> ceil_log10 clog M = Inr (clog M)"
  by (simp add: ceil_log10_def)

lemma label_point_pos: "0 < M \<Longrightarrow> label_point clog M n p = Inr (fill (clog M) n p)"
  by (simp add: label_point_def fill_def ceil_log10_pos split: option.splits)

lemma label_points_pos:
  "0 < M \<Longrightarrow> label_points clog M k ps = Inr (k + length ps, backfill (clog M) k ps)"
  by (induction ps arbitrary: k) (simp_all add: label_point_pos)

lemma length_backfill [simp]: "length (backfill w k ps) = length ps"
  by (induction ps arbitrary: k) simp_all

lemma backfill_append:
  "backfill w k (ps @ qs) = backfill w k ps @ backfill w (k + length ps) qs"
  by (induction ps arbitrary: k) simp_all

lemma nth_backfill:
  "i < length ps \<Longrightarrow> backfill w k ps ! i = fill w (Suc (k + i)) (ps ! i)"
proof (induction ps arbitrary: k i)
  case Nil
  then show ?case by simp
next
  case (Cons p ps)
  then show ?case by (cases i) simp_all
qed

lemma length_routes_of [simp]: "length (routes_of w f ri pk subs) = length subs"
  by (induction subs arbitrary: ri pk) simp_all

lemma routes_of_append:
  "routes_of w f ri pk (xs @ ys) =
     routes_of w f ri pk xs @ routes_of w f (ri + length xs) (pk + length (concat xs)) ys"
  by (induction xs arbitrary: ri pk) (simp_all add: add.assoc)

lemma process_sublists_pos:
  "0 < M \<Longrightarrow> process_sublists clog M f st subs =
     Inr \<lparr>route_idx = route_idx st + length subs,
          point_idx = point_idx st + length (concat subs),
          routes_new = routes_new st
            @ routes_of (clog M) f (route_idx st) (point_idx st) subs\<rparr>"
  by (induction subs arbitrary: st) (simp_all add: label_points_pos add.assoc)

lemma process_segment_pos:
  "0 < M \<Longrightarrow> process_segment clog M f st seg =
     Inr \<lparr>route_idx = route_idx st + length (windows (nat M) seg),
          point_idx = point_idx st + length seg,
          routes_new = routes_new st
            @ routes_of (clog M) f (route_idx st) (point_idx st)
                (windows (nat M) seg)\<rparr>"
  by (simp add: process_segment_def subsegments_pos process_sublists_pos concat_windows)

lemma process_segments_pos:
  "0 < M \<Longrightarrow> process_segments clog M f st segs =
     Inr \<lparr>route_idx = route_idx st + length (concat (map (windows (nat M)) segs)),
          point_idx = point_idx st + length (concat segs),
          routes_new = routes_new st
            @ routes_of (clog M) f (route_idx st) (point_idx st)
                (concat (map (windows (nat M)) segs))\<rparr>"
proof (induction segs arbitrary: st)
  case Nil
  show ?case by simp
next
  case (Cons seg segs)
  show ?case
    using Cons.prems
    by (simp add: process_segment_pos Cons.IH routes_of_append concat_windows add.assoc)
qed

lemma process_track_pos:
  "0 < M \<Longrightarrow> process_track clog M f st t =
     Inr \<lparr>route_idx = route_idx st + length (concat (map (windows (nat M)) t)),
          point_idx = length (concat t),
          routes_new = routes_new st
            @ routes_of (clog M) f (route_idx st) 0
                (concat (map (windows (nat M)) t))\<rparr>"
  by (simp add: process_track_def process_segments_pos)

lemma process_tracks_pos:
  "0 < M \<Longrightarrow> \<exists>pk. process_tracks clog M f st ts =
     Inr \<lparr>route_idx = route_idx st + length (routes_of_tracks (clog M) (nat M) f (route_idx st) ts),
          point_idx = pk,
          routes_new = routes_new st
            @ routes_of_tracks (clog M) (nat M) f (route_idx st) ts\<rparr>"
proof (induction ts arbitrary: st)
  case Nil
  show ?case by (rule exI [of _ "point_idx st"]) simp
next
  case (Cons t ts)
  let ?w = "clog M"
  let ?st1 = "\<lparr>route_idx = route_idx st + length (concat (map (windows (nat M)) t)),
               point_idx = length (concat t),
               routes_new = routes_new st
                 @ routes_of ?w f (route_idx st) 0 (concat (map (windows (nat M)) t))\<rparr>"
  have step: "process_tracks clog M f st (t # ts) = process_tracks clog M f ?st1 ts"
    by (simp add: process_track_pos [OF Cons.prems])
  obtain pk where rest: "process_tracks clog M f ?st1 ts =
      Inr \<lparr>route_idx = route_idx ?st1
               + length (routes_of_tracks ?w (nat M) f (route_idx ?st1) ts),
           point_idx = pk,
           routes_new = routes_new ?st1 @ routes_of_tracks ?w (nat M) f (route_idx ?st1) ts\<rparr>"
    using Cons.IH [OF Cons.prems, of ?st1] by blast
  show ?case
    unfolding step rest by (rule exI [of _ pk]) (simp add: add.assoc)
qed


subsection \<open>The sizes of the groups\<close>








subsection \<open>Decimal formatting\<close>

lemma digit_cases:
  assumes "d < (10::nat)"
  shows "d = 0 \<or> d = 1 \<or> d = 2 \<or> d = 3 \<or> d = 4 \<or> d = 5 \<or> d = 6 \<or> d = 7 \<or> d = 8 \<or> d = 9"
  using assms by arith

lemma digit_val_digit_char: "d < 10 \<Longrightarrow> digit_val (digit_char d) = d"
  using digit_cases [of d] by (auto simp add: digit_val_def digit_char_def)

lemma digit_char_not_underscore: "d < 10 \<Longrightarrow> digit_char d \<noteq> CHR ''_''"
  using digit_cases [of d] by (auto simp add: digit_char_def)

lemma nat_of_digits_snoc: "nat_of_digits (s @ [c]) = 10 * nat_of_digits s + digit_val c"
  by (simp add: nat_of_digits_def)

lemma nat_of_digits_str_nat: "nat_of_digits (str_nat n) = n"
proof (induction n rule: str_nat.induct)
  case (1 n)
  show ?case
  proof (cases "n < 10")
    case True
    then show ?thesis
      by (simp add: str_nat.simps [of n] nat_of_digits_def digit_val_digit_char)
  next
    case False
    then have "nat_of_digits (str_nat n) = 10 * nat_of_digits (str_nat (n div 10)) + digit_val (digit_char (n mod 10))"
      by (simp add: str_nat.simps [of n] nat_of_digits_snoc)
    also have "\<dots> = 10 * (n div 10) + n mod 10"
      using 1 False by (simp add: digit_val_digit_char)
    finally show ?thesis by simp
  qed
qed

lemma nat_of_digits_zeros: "nat_of_digits (replicate k CHR ''0'' @ s) = nat_of_digits s"
proof -
  have "foldl (\<lambda>acc c. 10 * acc + digit_val c) 0 (replicate k CHR ''0'') = 0"
    by (induction k) (simp_all add: digit_val_def)
  then show ?thesis
    by (simp add: nat_of_digits_def)
qed

lemma nat_of_digits_format_zero: "nat_of_digits (format_zero w n) = n"
  by (simp add: format_zero_def nat_of_digits_zeros nat_of_digits_str_nat)

lemma str_nat_no_underscore: "CHR ''_'' \<notin> set (str_nat n)"
proof (induction n rule: str_nat.induct)
  case (1 n)
  show ?case
  proof (cases "n < 10")
    case True
    then show ?thesis
      using digit_char_not_underscore [of n] by (simp add: str_nat.simps [of n])
  next
    case False
    then show ?thesis
      using 1 digit_char_not_underscore [of "n mod 10"] by (simp add: str_nat.simps [of n])
  qed
qed

lemma format_zero_no_underscore: "CHR ''_'' \<notin> set (format_zero w n)"
  using str_nat_no_underscore [of n] by (auto simp add: format_zero_def)

lemma takeWhile_until_underscore:
  assumes "CHR ''_'' \<notin> set s"
  shows "takeWhile (\<lambda>c. c \<noteq> CHR ''_'') (s @ CHR ''_'' # r) = s"
  using assms by (induction s) auto

lemma numeric_prefix_routename: "numeric_prefix (routename i f) = i"
  using takeWhile_until_underscore [OF format_zero_no_underscore, of 3 i]
  by (simp add: numeric_prefix_def routename_def nat_of_digits_format_zero)


lemma length_format_zero: "w \<le> length (format_zero w n)"
  by (simp add: format_zero_def)



subsection \<open>The label width\<close>

lemma ceil_log10_nat_small [simp]: "n \<le> 1 \<Longrightarrow> ceil_log10_nat n = 0"
  by (simp add: ceil_log10_nat.simps [of n])

lemma ceil_log10_nat_step: "2 \<le> n \<Longrightarrow> ceil_log10_nat n = Suc (ceil_log10_nat ((n + 9) div 10))"
  by (simp add: ceil_log10_nat.simps [of n])

lemma ceil_log10_nat_bounds:
  "2 \<le> n \<Longrightarrow> 10 ^ (ceil_log10_nat n - 1) < n \<and> n \<le> 10 ^ ceil_log10_nat n"
proof (induction n rule: ceil_log10_nat.induct)
  case (1 n)
  let ?k = "(n + 9) div 10"
  have n: "\<not> n \<le> 1"
    using "1.prems" by simp
  have c: "ceil_log10_nat n = Suc (ceil_log10_nat ?k)"
    using "1.prems" by (rule ceil_log10_nat_step)
  have up: "n \<le> 10 * ?k" and low: "10 * ?k \<le> n + 9"
    by simp_all
  show ?case
  proof (cases "2 \<le> ?k")
    case True
    then have IH: "10 ^ (ceil_log10_nat ?k - 1) < ?k" "?k \<le> 10 ^ ceil_log10_nat ?k"
      using "1.IH" [OF n] by simp_all
    have pos: "ceil_log10_nat ?k = Suc (ceil_log10_nat ?k - 1)"
      using ceil_log10_nat_step [OF True] by simp
    have "(10::nat) ^ ceil_log10_nat ?k = 10 * 10 ^ (ceil_log10_nat ?k - 1)"
      by (subst pos) simp
    also have "\<dots> \<le> 10 * (?k - 1)"
      using IH(1) by simp
    also have "\<dots> < n"
      using low True by simp
    finally have "10 ^ ceil_log10_nat ?k < n" .
    moreover have "n \<le> 10 * 10 ^ ceil_log10_nat ?k"
      using up IH(2) by simp
    ultimately show ?thesis
      by (simp add: c)
  next
    case False
    then have k1: "?k \<le> 1"
      by simp
    then have "n \<le> 10"
      using up by simp
    then show ?thesis
      using "1.prems" k1 by (simp add: c)
  qed
qed

lemma ceil_log10_real:
  assumes "0 < M"
  shows "int (ceil_log10_nat (nat M)) = \<lceil>log 10 (real_of_int M)\<rceil>"
proof (cases "M = 1")
  case True
  then show ?thesis by simp
next
  case False
  let ?n = "nat M"
  have n: "2 \<le> ?n"
    using assms False by simp
  obtain c where c: "ceil_log10_nat ?n = Suc c"
    using ceil_log10_nat_step [OF n] by simp
  have "10 ^ c < ?n" "?n \<le> 10 ^ (c + 1)"
    using ceil_log10_nat_bounds [OF n] c by simp_all
  then have "\<lceil>log (real 10) (real ?n)\<rceil> = int c + 1"
    by (intro ceiling_log_nat_eq_if) simp_all
  moreover have "real ?n = real_of_int M"
    using assms by simp
  ultimately show ?thesis
    using c by simp
qed


subsection \<open>A non-positive maximal route length\<close>

lemma process_segment_nonpos:
  "M \<le> 0 \<Longrightarrow> process_segment clog M f st seg = (if M = 0 then Inl ValueError else Inr st)"
  by (simp add: process_segment_def subsegments_zero subsegments_neg)

lemma process_segments_nonpos:
  "M \<le> 0 \<Longrightarrow> process_segments clog M f st segs =
     (if M = 0 \<and> segs \<noteq> [] then Inl ValueError else Inr st)"
  by (induction segs) (simp_all add: process_segment_nonpos)

lemma process_track_nonpos:
  "M \<le> 0 \<Longrightarrow> process_track clog M f st t =
     (if M = 0 \<and> t \<noteq> [] then Inl ValueError else Inr (st\<lparr>point_idx := 0\<rparr>))"
  by (simp add: process_track_def process_segments_nonpos)

lemma process_tracks_nonpos:
  "M \<le> 0 \<Longrightarrow> process_tracks clog M f st ts =
     (if M = 0 \<and> (\<exists>t \<in> set ts. t \<noteq> []) then Inl ValueError
      else Inr (if ts = [] then st else st\<lparr>point_idx := 0\<rparr>))"
  by (induction ts arbitrary: st) (auto simp add: process_track_nonpos)

lemma process_file_nonpos:
  "max_route_length a \<le> 0 \<Longrightarrow> process_file smp clog a st f =
     (if max_route_length a = 0 \<and> (\<exists>t \<in> set (loaded_tracks smp a f). t \<noteq> [])
      then Inl ValueError
      else Inr (if loaded_tracks smp a f = [] then st\<lparr>route_idx := 0\<rparr>
                else st\<lparr>route_idx := 0, point_idx := 0\<rparr>))"
  by (simp add: process_file_def process_tracks_nonpos)

lemma process_files_nonpos:
  assumes "max_route_length a \<le> 0"
  shows "if max_route_length a = 0 \<and> (\<exists>f \<in> set fs. \<exists>t \<in> set (loaded_tracks smp a f). t \<noteq> [])
         then process_files smp clog a st fs = Inl ValueError
         else \<exists>st'. process_files smp clog a st fs = Inr st' \<and> routes_new st' = routes_new st"
proof (induction fs arbitrary: st)
  case Nil
  show ?case by simp
next
  case (Cons f fs)
  show ?case
  proof (cases "max_route_length a = 0 \<and> (\<exists>t \<in> set (loaded_tracks smp a f). t \<noteq> [])")
    case True
    then show ?thesis
      by (simp add: process_file_nonpos [OF assms])
  next
    case False
    then obtain st1 where st1: "process_file smp clog a st f = Inr st1" "routes_new st1 = routes_new st"
      using process_file_nonpos [OF assms, where smp = smp and clog = clog and st = st and f = f] by (auto split: if_splits)
    show ?thesis
      using Cons.IH [of st1] False st1 by (auto split: if_splits)
  qed
qed


subsection \<open>The routes of a file\<close>

lemma process_file_pos:
  assumes "0 < max_route_length a"
  shows "\<exists>pk. process_file smp clog a st f =
     Inr \<lparr>route_idx = length (routes_of_tracks (clog (max_route_length a))
                 (nat (max_route_length a)) (file_name f) 0 (loaded_tracks smp a f)),
          point_idx = pk,
          routes_new = routes_new st
            @ routes_of_tracks (clog (max_route_length a))
                (nat (max_route_length a)) (file_name f) 0 (loaded_tracks smp a f)\<rparr>"
  using process_tracks_pos [OF assms, where clog = clog and f = "file_name f"
      and st = "st\<lparr>route_idx := 0\<rparr>" and ts = "loaded_tracks smp a f"]
  by (simp add: process_file_def)


lemma routes_points_Nil [simp]: "routes_points [] = []"
  by (simp add: routes_points_def)

lemma routes_points_Cons [simp]: "routes_points (r # rs) = route_points r @ routes_points rs"
  by (simp add: routes_points_def)

lemma routes_points_append [simp]: "routes_points (rs @ rs') = routes_points rs @ routes_points rs'"
  by (simp add: routes_points_def)

lemma routes_points_routes_of: "routes_points (routes_of w f ri pk subs) = backfill w pk (concat subs)"
  by (induction subs arbitrary: ri pk) (simp_all add: backfill_append)

lemma route_names_routes_of:
  "map route_name (routes_of w f ri pk subs) = map (\<lambda>i. routename i f) [ri..<ri + length subs]"
proof (induction subs arbitrary: ri pk)
  case Nil
  show ?case by simp
next
  case (Cons s ss)
  have "[ri..<ri + length (s # ss)] = ri # [Suc ri..<Suc ri + length ss]"
    by (subst upt_conv_Cons) simp_all
  then show ?case
    using Cons.IH [of "Suc ri" "pk + length s"] by simp
qed

lemma concat_concat_windows:
  assumes "0 < m"
  shows "concat (concat (map (windows m) t)) = concat t"
  by (induction t) (simp_all add: concat_windows [OF assms])

lemma routes_points_routes_of_tracks:
  assumes "0 < m"
  shows "routes_points (routes_of_tracks w m f ri ts) = concat (map (\<lambda>t. backfill w 0 (concat t)) ts)"
  by (induction ts arbitrary: ri)
    (simp_all add: routes_points_routes_of concat_concat_windows [OF assms])

lemma route_names_routes_of_tracks:
  "map route_name (routes_of_tracks w m f ri ts) =
     map (\<lambda>i. routename i f) [ri..<ri + length (routes_of_tracks w m f ri ts)]"
proof (induction ts arbitrary: ri)
  case Nil
  show ?case by simp
next
  case (Cons t ts)
  let ?n = "length (concat (map (windows m) t))"
  let ?k = "length (routes_of_tracks w m f (ri + ?n) ts)"
  have "[ri..<ri + (?n + ?k)] = [ri..<ri + ?n] @ [ri + ?n..<ri + ?n + ?k]"
    using upt_add_eq_append [of ri "ri + ?n" ?k] by (simp add: add.assoc)
  then show ?case
    using Cons.IH [of "ri + ?n"] by (simp add: route_names_routes_of)
qed

lemma same_place_fill: "same_place p (fill w n p)"
  by (simp add: same_place_def fill_def split: option.splits)

lemma backfilled_fill: "backfilled p (fill w n p)"
  by (simp add: backfilled_def same_place_fill) (simp add: fill_def split: option.splits)

lemma backfilled_backfill: "list_all2 backfilled ps (backfill w k ps)"
  by (induction ps arbitrary: k) (simp_all add: backfilled_fill)

lemma backfilled_tracks:
  "list_all2 backfilled (file_points ts) (concat (map (\<lambda>t. backfill w 0 (concat t)) ts))"
  unfolding file_points_def
  by (induction ts) (simp_all add: backfilled_backfill list_all2_appendI)


lemma is_label_format_zero: "0 < n \<Longrightarrow> is_label w (format_zero w n)"
  by (simp add: is_label_def nat_of_digits_format_zero)

lemma relabelled_fill: "0 < n \<Longrightarrow> relabelled w p (fill w n p)"
  by (simp add: relabelled_def same_place_fill)
    (simp add: fill_def is_label_format_zero split: option.splits)

lemma relabelled_backfill: "list_all2 (relabelled w) ps (backfill w k ps)"
  by (induction ps arbitrary: k) (simp_all add: relabelled_fill)

lemma relabelled_tracks:
  "list_all2 (relabelled w) (file_points ts) (concat (map (\<lambda>t. backfill w 0 (concat t)) ts))"
  unfolding file_points_def
  by (induction ts) (simp_all add: relabelled_backfill list_all2_appendI)

lemma name_fill_None: "name p = None \<Longrightarrow> name (fill w n p) = Some (format_zero w n)"
  by (simp add: fill_def)

lemma routes_points_track:
  assumes "0 < m"
  shows "routes_points (routes_of w f ri 0 (concat (map (windows m) t))) = backfill w 0 (concat t)"
  by (simp add: routes_points_routes_of concat_concat_windows [OF assms])

subsection \<open>The chunker: points and labels\<close>

text \<open>
  C1: for \<open>max_route_length \<ge> 1\<close> the chunker processes every input file without an
  error, and the points of the routes it appends for the file, concatenated in generation
  order, are the points of the file's (possibly simplified) segments in their original
  order: the same number of points, each one the original point, where at most a missing
  name was filled in. No point is dropped, duplicated or reordered.
\<close>

theorem chunker_lossless:
  assumes "1 \<le> max_route_length a"
  shows "\<exists>st' rs. process_file smp clog a st f = Inr st' \<and> routes_new st' = routes_new st @ rs
    \<and> length (routes_points rs) = length (file_points (loaded_tracks smp a f))
    \<and> list_all2 backfilled (file_points (loaded_tracks smp a f)) (routes_points rs)"
proof -
  let ?M = "max_route_length a"
  let ?rs = "routes_of_tracks (clog ?M) (nat ?M) (file_name f) 0 (loaded_tracks smp a f)"
  have M: "0 < ?M" and m: "0 < nat ?M"
    using assms by simp_all
  obtain pk where run: "process_file smp clog a st f =
      Inr \<lparr>route_idx = length ?rs, point_idx = pk, routes_new = routes_new st @ ?rs\<rparr>"
    using process_file_pos [OF M, where smp = smp and clog = clog and st = st and f = f] by blast
  have pts: "list_all2 backfilled (file_points (loaded_tracks smp a f)) (routes_points ?rs)"
    by (simp add: routes_points_routes_of_tracks [OF m] backfilled_tracks)
  then have "length (routes_points ?rs) = length (file_points (loaded_tracks smp a f))"
    by (simp add: list_all2_lengthD)
  then show ?thesis
    using run pts by simp
qed

theorem chunker_lossless_witness:
  "1 \<le> max_route_length (example_args [three_point_file] 2)
   \<and> process_file no_simplify example_clog (example_args [three_point_file] 2) init_state three_point_file =
       Inr \<lparr>route_idx = 2, point_idx = 3,
            routes_new = [\<lparr>route_name = ''000_a'', route_points = [named 1 ''1'', named 2 ''x'']\<rparr>,
                          \<lparr>route_name = ''001_a'', route_points = [named 3 ''3'']\<rparr>]\<rparr>
   \<and> (\<exists>st' rs. process_file no_simplify example_clog (example_args [three_point_file] 2) init_state three_point_file = Inr st'
        \<and> routes_new st' = routes_new init_state @ rs
        \<and> length (routes_points rs)
            = length (file_points (loaded_tracks no_simplify (example_args [three_point_file] 2) three_point_file))
        \<and> list_all2 backfilled
            (file_points (loaded_tracks no_simplify (example_args [three_point_file] 2) three_point_file))
            (routes_points rs))"
proof -
  have h: "1 \<le> max_route_length (example_args [three_point_file] 2)"
    by (simp add: example_args_def)
  have e: "process_file no_simplify example_clog (example_args [three_point_file] 2) init_state three_point_file =
       Inr \<lparr>route_idx = 2, point_idx = 3,
            routes_new = [\<lparr>route_name = ''000_a'', route_points = [named 1 ''1'', named 2 ''x'']\<rparr>,
                          \<lparr>route_name = ''001_a'', route_points = [named 3 ''3'']\<rparr>]\<rparr>"
    by code_simp
  show ?thesis
    using h e chunker_lossless [OF h, where smp = no_simplify and clog = example_clog
        and st = init_state and f = three_point_file] by blast
qed

text \<open>
  C7: for \<open>max_route_length \<ge> 1\<close>, every point of a file comes out of the chunker with the
  same coordinates; a point that had a name keeps it, and a point without a name gets a
  positive counter value zero-padded to the width \<^verbatim>\<open>math.ceil(math.log10(max_route_length))\<close>,
  the value \<open>clog max_route_length\<close> of the library; nothing but the name of a previously
  unnamed point changes. Where the library's value is the exact one, this width is
  \<open>\<lceil>log10 max_route_length\<rceil>\<close>.
\<close>

theorem chunker_fills_only_missing_names:
  assumes "1 \<le> max_route_length a"
  shows "\<exists>st' rs. process_file smp clog a st f = Inr st' \<and> routes_new st' = routes_new st @ rs
    \<and> ceil_log10 clog (max_route_length a) = Inr (clog (max_route_length a))
    \<and> list_all2 (relabelled (clog (max_route_length a)))
          (file_points (loaded_tracks smp a f)) (routes_points rs)
    \<and> (clog (max_route_length a) = ceil_log10_nat (nat (max_route_length a)) \<longrightarrow>
          int (clog (max_route_length a)) = \<lceil>log 10 (real_of_int (max_route_length a))\<rceil>)"
proof -
  let ?M = "max_route_length a"
  let ?w = "clog ?M"
  let ?rs = "routes_of_tracks ?w (nat ?M) (file_name f) 0 (loaded_tracks smp a f)"
  have M: "0 < ?M" and m: "0 < nat ?M"
    using assms by simp_all
  obtain pk where run: "process_file smp clog a st f =
      Inr \<lparr>route_idx = length ?rs, point_idx = pk, routes_new = routes_new st @ ?rs\<rparr>"
    using process_file_pos [OF M, where smp = smp and clog = clog and st = st and f = f] by blast
  have pts: "list_all2 (relabelled ?w) (file_points (loaded_tracks smp a f)) (routes_points ?rs)"
    by (simp add: routes_points_routes_of_tracks [OF m] relabelled_tracks)
  have new: "routes_new \<lparr>route_idx = length ?rs, point_idx = pk, routes_new = routes_new st @ ?rs\<rparr>
      = routes_new st @ ?rs"
    by simp
  have width: "ceil_log10 clog ?M = Inr ?w"
    using M by (rule ceil_log10_pos)
  have exact: "?w = ceil_log10_nat (nat ?M) \<longrightarrow> int ?w = \<lceil>log 10 (real_of_int ?M)\<rceil>"
    using ceil_log10_real [OF M] by simp
  show ?thesis
    using run new width pts exact by blast
qed

theorem chunker_fills_only_missing_names_witness:
  "1 \<le> max_route_length (example_args [three_point_file] 250)
   \<and> example_clog (max_route_length (example_args [three_point_file] 250))
       = ceil_log10_nat (nat (max_route_length (example_args [three_point_file] 250)))
   \<and> process_file no_simplify example_clog (example_args [three_point_file] 250) init_state three_point_file =
       Inr \<lparr>route_idx = 1, point_idx = 3,
            routes_new = [\<lparr>route_name = ''000_a'',
                           route_points = [named 1 ''001'', named 2 ''x'', named 3 ''003'']\<rparr>]\<rparr>
   \<and> (\<exists>st' rs. process_file no_simplify example_clog (example_args [three_point_file] 250) init_state three_point_file = Inr st'
        \<and> routes_new st' = routes_new init_state @ rs
        \<and> ceil_log10 example_clog (max_route_length (example_args [three_point_file] 250))
            = Inr (example_clog (max_route_length (example_args [three_point_file] 250)))
        \<and> list_all2 (relabelled (example_clog (max_route_length (example_args [three_point_file] 250))))
            (file_points (loaded_tracks no_simplify (example_args [three_point_file] 250) three_point_file))
            (routes_points rs))
   \<and> int (example_clog (max_route_length (example_args [three_point_file] 250)))
       = \<lceil>log 10 (real_of_int (max_route_length (example_args [three_point_file] 250)))\<rceil>"
proof -
  have h: "1 \<le> max_route_length (example_args [three_point_file] 250)"
    by (simp add: example_args_def)
  have x: "example_clog (max_route_length (example_args [three_point_file] 250))
       = ceil_log10_nat (nat (max_route_length (example_args [three_point_file] 250)))"
    by (simp add: example_clog_def)
  have e: "process_file no_simplify example_clog (example_args [three_point_file] 250) init_state three_point_file =
       Inr \<lparr>route_idx = 1, point_idx = 3,
            routes_new = [\<lparr>route_name = ''000_a'',
                           route_points = [named 1 ''001'', named 2 ''x'', named 3 ''003'']\<rparr>]\<rparr>"
    by code_simp
  show ?thesis
    using h x e chunker_fills_only_missing_names [OF h, where smp = no_simplify and clog = example_clog
        and st = init_state and f = three_point_file]
    by blast
qed

text \<open>
  C4: the specification speaks of a counter that runs across the whole file. The script sets
  \<^verbatim>\<open>point_idx = 0\<close> at the start of every track (line 111), so two tracks of one file
  both start with the label of 1.
\<close>

theorem point_labels_across_tracks_counterexample:
  "run_point_names (process_files no_simplify example_clog (example_args [two_track_file] 250) init_state
       [two_track_file]) = [''001'', ''001'']
   \<and> \<not> sorted_wrt (<) (map nat_of_digits
        (run_point_names (process_files no_simplify example_clog (example_args [two_track_file] 250) init_state
           [two_track_file])))"
  by code_simp

text \<open>
  C4, amended: within one track and for \<open>max_route_length \<ge> 1\<close>, the point counter starts
  at zero and is incremented once per point, named or not, whatever segment or group the
  point belongs to: the point at position \<open>i\<close> of the track has the counter value \<open>i + 1\<close>,
  which is its label if it had no name, and the counter ends at the number of points of
  the track. The labels of the unnamed points of a track therefore strictly increase.
\<close>

theorem point_labels_within_track:
  assumes "1 \<le> M"
  shows "\<exists>st' rs. process_track clog M f st t = Inr st' \<and> routes_new st' = routes_new st @ rs
    \<and> point_idx st' = length (concat t)
    \<and> length (routes_points rs) = length (concat t)
    \<and> (\<forall>i < length (concat t). name (concat t ! i) = None \<longrightarrow>
          name (routes_points rs ! i) = Some (format_zero (clog M) (Suc i))
          \<and> map_option nat_of_digits (name (routes_points rs ! i)) = Some (Suc i))"
proof -
  let ?w = "clog M"
  let ?rs = "routes_of ?w f (route_idx st) 0 (concat (map (windows (nat M)) t))"
  let ?st' = "\<lparr>route_idx = route_idx st + length (concat (map (windows (nat M)) t)),
               point_idx = length (concat t), routes_new = routes_new st @ ?rs\<rparr>"
  have M: "0 < M" and m: "0 < nat M"
    using assms by simp_all
  have run: "process_track clog M f st t = Inr ?st'"
    using M by (rule process_track_pos)
  have pts: "routes_points ?rs = backfill ?w 0 (concat t)"
    using m by (rule routes_points_track)
  have lab: "\<forall>i < length (concat t). name (concat t ! i) = None \<longrightarrow>
      name (routes_points ?rs ! i) = Some (format_zero ?w (Suc i))
      \<and> map_option nat_of_digits (name (routes_points ?rs ! i)) = Some (Suc i)"
    by (simp add: pts nth_backfill name_fill_None nat_of_digits_format_zero)
  have "routes_new ?st' = routes_new st @ ?rs" "point_idx ?st' = length (concat t)"
    "length (routes_points ?rs) = length (concat t)"
    by (simp_all add: pts)
  then show ?thesis
    using run lab by blast
qed

theorem point_labels_within_track_witness:
  "(1::int) \<le> 2
   \<and> process_track example_clog 2 ''a.gpx'' init_state [[unnamed 1, named 2 ''x''], [unnamed 3]] =
       Inr \<lparr>route_idx = 2, point_idx = 3,
            routes_new = [\<lparr>route_name = ''000_a'', route_points = [named 1 ''1'', named 2 ''x'']\<rparr>,
                          \<lparr>route_name = ''001_a'', route_points = [named 3 ''3'']\<rparr>]\<rparr>
   \<and> (\<exists>st' rs. process_track example_clog 2 ''a.gpx'' init_state [[unnamed 1, named 2 ''x''], [unnamed 3]] = Inr st'
        \<and> routes_new st' = routes_new init_state @ rs
        \<and> point_idx st' = length (concat [[unnamed 1, named 2 ''x''], [unnamed 3]])
        \<and> length (routes_points rs) = length (concat [[unnamed 1, named 2 ''x''], [unnamed 3]])
        \<and> (\<forall>i < length (concat [[unnamed 1, named 2 ''x''], [unnamed 3]]).
              name (concat [[unnamed 1, named 2 ''x''], [unnamed 3]] ! i) = None \<longrightarrow>
              name (routes_points rs ! i) = Some (format_zero (example_clog 2) (Suc i))
              \<and> map_option nat_of_digits (name (routes_points rs ! i)) = Some (Suc i)))"
proof -
  have h: "(1::int) \<le> 2" by simp
  have e: "process_track example_clog 2 ''a.gpx'' init_state [[unnamed 1, named 2 ''x''], [unnamed 3]] =
       Inr \<lparr>route_idx = 2, point_idx = 3,
            routes_new = [\<lparr>route_name = ''000_a'', route_points = [named 1 ''1'', named 2 ''x'']\<rparr>,
                          \<lparr>route_name = ''001_a'', route_points = [named 3 ''3'']\<rparr>]\<rparr>"
    by code_simp
  show ?thesis
    using h e point_labels_within_track [OF h, where clog = example_clog and f = "''a.gpx''"
        and st = init_state and t = "[[unnamed 1, named 2 ''x''], [unnamed 3]]"]
    by blast
qed

text \<open>
  C10: the counter is incremented before a label is assigned. For \<open>max_route_length \<ge> 1\<close>
  the first point of a track, when it has no name, gets the label formatted from 1, which
  is \<open>001\<close> for a maximal route length of 250 and its label width 3, and no point gets the
  label formatted from 0.
\<close>

theorem first_label_is_one:
  assumes "1 \<le> M"
  shows "\<exists>st' rs. process_track clog M f st t = Inr st' \<and> routes_new st' = routes_new st @ rs
    \<and> (concat t \<noteq> [] \<and> name (hd (concat t)) = None \<longrightarrow>
          routes_points rs \<noteq> []
          \<and> name (hd (routes_points rs)) = Some (format_zero (clog M) 1))
    \<and> (\<forall>i < length (concat t). name (concat t ! i) = None \<longrightarrow>
          name (routes_points rs ! i) \<noteq> Some (format_zero (clog M) 0))
    \<and> (M = 250 \<and> clog 250 = 3 \<longrightarrow> format_zero (clog M) 1 = ''001'')"
proof -
  let ?w = "clog M"
  let ?rs = "routes_of ?w f (route_idx st) 0 (concat (map (windows (nat M)) t))"
  let ?st' = "\<lparr>route_idx = route_idx st + length (concat (map (windows (nat M)) t)),
               point_idx = length (concat t), routes_new = routes_new st @ ?rs\<rparr>"
  have M: "0 < M" and m: "0 < nat M"
    using assms by simp_all
  have run: "process_track clog M f st t = Inr ?st'"
    using M by (rule process_track_pos)
  have pts: "routes_points ?rs = backfill ?w 0 (concat t)"
    using m by (rule routes_points_track)
  have first: "concat t \<noteq> [] \<and> name (hd (concat t)) = None \<longrightarrow>
      routes_points ?rs \<noteq> [] \<and> name (hd (routes_points ?rs)) = Some (format_zero ?w 1)"
    unfolding pts by (cases "concat t") (simp_all add: name_fill_None)
  have "format_zero ?w (Suc i) \<noteq> format_zero ?w 0" for i
  proof
    assume "format_zero ?w (Suc i) = format_zero ?w 0"
    then have "nat_of_digits (format_zero ?w (Suc i)) = nat_of_digits (format_zero ?w 0)"
      by simp
    then show False
      by (simp add: nat_of_digits_format_zero)
  qed
  then have never: "\<forall>i < length (concat t). name (concat t ! i) = None \<longrightarrow>
      name (routes_points ?rs ! i) \<noteq> Some (format_zero ?w 0)"
    by (simp add: pts nth_backfill name_fill_None)
  have ex: "M = 250 \<and> clog 250 = 3 \<longrightarrow> format_zero ?w 1 = ''001''"
  proof
    assume "M = 250 \<and> clog 250 = 3"
    moreover have "format_zero 3 1 = ''001''"
      by code_simp
    ultimately show "format_zero ?w 1 = ''001''"
      by simp
  qed
  have "routes_new ?st' = routes_new st @ ?rs"
    by simp
  then show ?thesis
    using run first never ex by blast
qed

theorem first_label_is_one_witness:
  "(1::int) \<le> 250
   \<and> process_track example_clog 250 ''a.gpx'' init_state [[unnamed 1, unnamed 2]] =
       Inr \<lparr>route_idx = 1, point_idx = 2,
            routes_new = [\<lparr>route_name = ''000_a'',
                           route_points = [named 1 ''001'', named 2 ''002'']\<rparr>]\<rparr>
   \<and> (\<exists>st' rs. process_track example_clog 250 ''a.gpx'' init_state [[unnamed 1, unnamed 2]] = Inr st'
        \<and> routes_new st' = routes_new init_state @ rs
        \<and> (concat [[unnamed 1, unnamed 2]] \<noteq> [] \<and> name (hd (concat [[unnamed 1, unnamed 2]])) = None \<longrightarrow>
              routes_points rs \<noteq> []
              \<and> name (hd (routes_points rs)) = Some (format_zero (example_clog 250) 1))
        \<and> (\<forall>i < length (concat [[unnamed 1, unnamed 2]]).
              name (concat [[unnamed 1, unnamed 2]] ! i) = None \<longrightarrow>
              name (routes_points rs ! i) \<noteq> Some (format_zero (example_clog 250) 0))
        \<and> ((250::int) = 250 \<and> example_clog 250 = 3 \<longrightarrow>
              format_zero (example_clog 250) 1 = ''001''))
   \<and> example_clog 250 = 3"
proof -
  have h: "(1::int) \<le> 250" by simp
  have w: "example_clog 250 = 3" by code_simp
  have e: "process_track example_clog 250 ''a.gpx'' init_state [[unnamed 1, unnamed 2]] =
       Inr \<lparr>route_idx = 1, point_idx = 2,
            routes_new = [\<lparr>route_name = ''000_a'',
                           route_points = [named 1 ''001'', named 2 ''002'']\<rparr>]\<rparr>"
    by code_simp
  show ?thesis
    using h e w first_label_is_one [OF h, where clog = example_clog and f = "''a.gpx''"
        and st = init_state and t = "[[unnamed 1, unnamed 2]]"]
    by blast
qed


subsection \<open>Route names\<close>

text \<open>
  C3: the specification speaks of a route counter that is never reset within a run. The script
  sets \<^verbatim>\<open>route_idx = 0\<close> at the start of every input file (line 109), so two input files
  with the same base name produce the same route name twice, and the numeric prefixes do
  not increase from one file to the next.
\<close>

theorem route_names_across_files_counterexample:
  "run_route_names (process_files no_simplify example_clog
       (example_args [one_point_file ''x/a.gpx'', one_point_file ''y/a.gpx''] 250) init_state
       [one_point_file ''x/a.gpx'', one_point_file ''y/a.gpx'']) = [''000_a'', ''000_a'']
   \<and> \<not> distinct (run_route_names (process_files no_simplify example_clog
       (example_args [one_point_file ''x/a.gpx'', one_point_file ''y/a.gpx''] 250) init_state
       [one_point_file ''x/a.gpx'', one_point_file ''y/a.gpx'']))
   \<and> \<not> sorted_wrt (<) (map numeric_prefix (run_route_names (process_files no_simplify example_clog
       (example_args [one_point_file ''x/a.gpx'', one_point_file ''y/a.gpx''] 250) init_state
       [one_point_file ''x/a.gpx'', one_point_file ''y/a.gpx''])))"
  by code_simp

lemma route_names_of_file:
  assumes "process_file smp clog a st f = Inr st'"
  shows "\<exists>rs. routes_new st' = routes_new st @ rs \<and> route_idx st' = length rs
    \<and> map route_name rs =
        map (\<lambda>i. format_zero 3 i @ ''_'' @ fst (splitext (basename (file_name f)))) [0..<length rs]
    \<and> map (numeric_prefix \<circ> route_name) rs = [0..<length rs]
    \<and> sorted_wrt (<) (map (numeric_prefix \<circ> route_name) rs)
    \<and> distinct (map route_name rs)"
proof (cases "0 < max_route_length a")
  case True
  let ?M = "max_route_length a"
  let ?rs = "routes_of_tracks (clog ?M) (nat ?M) (file_name f) 0 (loaded_tracks smp a f)"
  obtain pk where "process_file smp clog a st f =
      Inr \<lparr>route_idx = length ?rs, point_idx = pk, routes_new = routes_new st @ ?rs\<rparr>"
    using process_file_pos [OF True, where smp = smp and clog = clog and st = st and f = f] by blast
  then have st': "routes_new st' = routes_new st @ ?rs" "route_idx st' = length ?rs"
    using assms by auto
  have names: "map route_name ?rs = map (\<lambda>i. routename i (file_name f)) [0..<length ?rs]"
    using route_names_routes_of_tracks [of _ _ "file_name f" 0] by simp
  have "map (numeric_prefix \<circ> route_name) ?rs = map numeric_prefix (map route_name ?rs)"
    by simp
  also have "\<dots> = map (\<lambda>i. numeric_prefix (routename i (file_name f))) [0..<length ?rs]"
    by (simp only: names map_map comp_def)
  also have "\<dots> = [0..<length ?rs]"
    by (simp add: numeric_prefix_routename)
  finally have prefixes: "map (numeric_prefix \<circ> route_name) ?rs = [0..<length ?rs]" .
  have "distinct (map numeric_prefix (map route_name ?rs))"
    using prefixes by simp
  then have dist: "distinct (map route_name ?rs)"
    by (simp only: distinct_map)
  have sorted: "sorted_wrt (<) (map (numeric_prefix \<circ> route_name) ?rs)"
    unfolding prefixes by simp
  have names': "map route_name ?rs =
      map (\<lambda>i. format_zero 3 i @ ''_'' @ fst (splitext (basename (file_name f)))) [0..<length ?rs]"
    using names by (simp add: routename_def)
  show ?thesis
    using st' names' prefixes sorted dist by blast
next
  case False
  then have "max_route_length a \<le> 0"
    by simp
  then have "routes_new st' = routes_new st \<and> route_idx st' = 0"
    using assms process_file_nonpos [where a = a and smp = smp and clog = clog and st = st and f = f] by (auto split: if_splits)
  then show ?thesis
    by simp
qed

text \<open>
  C3, amended: within one input file the route counter starts at zero and is incremented
  once per route, across all segments and tracks of the file: the routes of a file are
  named \<open>i_base\<close> for \<open>i = 0, 1, 2, \<dots>\<close> in generation order, with \<open>i\<close> zero-padded to three
  digits; their numeric prefixes strictly increase and their names are distinct. The
  counter starts again at zero for the next input file. For \<open>max_route_length \<ge> 1\<close> every
  file is processed without an error.
\<close>

theorem route_names_within_file:
  "(1 \<le> max_route_length a \<longrightarrow> (\<exists>st'. process_file smp clog a st f = Inr st'))
   \<and> (\<forall>st'. process_file smp clog a st f = Inr st' \<longrightarrow>
        (\<exists>rs. routes_new st' = routes_new st @ rs \<and> route_idx st' = length rs
          \<and> map route_name rs =
              map (\<lambda>i. format_zero 3 i @ ''_'' @ fst (splitext (basename (file_name f))))
                [0..<length rs]
          \<and> map (numeric_prefix \<circ> route_name) rs = [0..<length rs]
          \<and> sorted_wrt (<) (map (numeric_prefix \<circ> route_name) rs)
          \<and> distinct (map route_name rs)))"
proof -
  have "\<exists>st'. process_file smp clog a st f = Inr st'" if "1 \<le> max_route_length a"
  proof -
    have "0 < max_route_length a"
      using that by simp
    then show ?thesis
      using process_file_pos [where a = a and smp = smp and clog = clog and st = st and f = f] by blast
  qed
  then show ?thesis
    using route_names_of_file [of smp clog a st f] by blast
qed

theorem route_names_within_file_witness:
  "1 \<le> max_route_length (example_args [three_point_file] 2)
   \<and> process_file no_simplify example_clog (example_args [three_point_file] 2) init_state three_point_file =
     Inr \<lparr>route_idx = 2, point_idx = 3,
          routes_new = [\<lparr>route_name = ''000_a'', route_points = [named 1 ''1'', named 2 ''x'']\<rparr>,
                        \<lparr>route_name = ''001_a'', route_points = [named 3 ''3'']\<rparr>]\<rparr>
   \<and> (\<exists>rs. routes_new \<lparr>route_idx = 2, point_idx = 3,
          routes_new = [\<lparr>route_name = ''000_a'', route_points = [named 1 ''1'', named 2 ''x'']\<rparr>,
                        \<lparr>route_name = ''001_a'', route_points = [named 3 ''3'']\<rparr>]\<rparr>
          = routes_new init_state @ rs
        \<and> route_idx \<lparr>route_idx = 2, point_idx = 3,
          routes_new = [\<lparr>route_name = ''000_a'', route_points = [named 1 ''1'', named 2 ''x'']\<rparr>,
                        \<lparr>route_name = ''001_a'', route_points = [named 3 ''3'']\<rparr>]\<rparr> = length rs
        \<and> map route_name rs =
            map (\<lambda>i. format_zero 3 i @ ''_'' @ fst (splitext (basename (file_name three_point_file))))
              [0..<length rs]
        \<and> map (numeric_prefix \<circ> route_name) rs = [0..<length rs]
        \<and> sorted_wrt (<) (map (numeric_prefix \<circ> route_name) rs)
        \<and> distinct (map route_name rs))"
proof -
  have h: "1 \<le> max_route_length (example_args [three_point_file] 2)"
    by (simp add: example_args_def)
  have e: "process_file no_simplify example_clog (example_args [three_point_file] 2) init_state three_point_file =
     Inr \<lparr>route_idx = 2, point_idx = 3,
          routes_new = [\<lparr>route_name = ''000_a'', route_points = [named 1 ''1'', named 2 ''x'']\<rparr>,
                        \<lparr>route_name = ''001_a'', route_points = [named 3 ''3'']\<rparr>]\<rparr>"
    by code_simp
  show ?thesis
    using h e route_names_within_file [where a = "example_args [three_point_file] 2"
        and smp = no_simplify and clog = example_clog and st = init_state and f = three_point_file]
    by blast
qed

subsection \<open>The writer and the whole run\<close>









lemma main_process_error:
  assumes "process_files smp clog a init_state (input a) = Inl e"
  shows "isl (main sys smp clog a fs)"
  using assms by (simp add: main_def and_then_def split: sum.splits)

lemma main_makedirs_error:
  assumes "makedirs sys (dirname (output_dir a)) fs = Inl e"
  shows "main sys smp clog a fs = Inl e"
  using assms by (simp add: main_def)

lemma main_step:
  assumes "makedirs sys (dirname (output_dir a)) fs = Inr fs1"
    and "process_files smp clog a init_state (input a) = Inr st"
  shows "main sys smp clog a fs =
    and_then (write_all (write_file sys) (write_outputs a (resolve_output a) (routes_new st)) fs1)
      (\<lambda>fs2. Inr (fs2, write_outputs a (resolve_output a) (routes_new st)))"
  using assms by (simp add: main_def)




text \<open>
  C8: the specification makes a non-positive \<^verbatim>\<open>--max_route_length\<close> an argument error. The
  flag is declared with \<^verbatim>\<open>type=int\<close> and the script never checks its sign: with the
  value -5 the run ends without an exception and writes its output file, with no route.
\<close>

theorem negative_length_accepted_counterexample:
  "main example_os no_simplify example_clog (example_args [one_point_file ''a.gpx''] (- 5)) {} =
     Inr ({''.''}, [(''./a_route_split-5.gpx'', [])])"
  by code_simp

text \<open>
  C8, amended: a non-positive \<^verbatim>\<open>--max_route_length\<close> passes the argument layer. The
  value 0 ends the run with a \<^verbatim>\<open>ValueError\<close> of the chunker as soon as an input file
  has a segment, so that no output file is written; with a negative value, or with 0 and
  no segment in any input file, processing ends without an exception and creates no
  route.
\<close>

theorem nonpositive_length_not_rejected:
  assumes "max_route_length a \<le> 0"
  shows "if max_route_length a = 0
            \<and> (\<exists>f \<in> set (input a). \<exists>t \<in> set (loaded_tracks smp a f). t \<noteq> [])
         then process_files smp clog a init_state (input a) = Inl ValueError
              \<and> isl (main sys smp clog a fs)
         else (\<exists>st'. process_files smp clog a init_state (input a) = Inr st' \<and> routes_new st' = [])"
proof (cases "max_route_length a = 0
    \<and> (\<exists>f \<in> set (input a). \<exists>t \<in> set (loaded_tracks smp a f). t \<noteq> [])")
  case True
  then have "process_files smp clog a init_state (input a) = Inl ValueError"
    using process_files_nonpos [OF assms, where fs = "input a" and smp = smp and clog = clog
        and st = init_state] by simp
  then show ?thesis
    using True main_process_error [where smp = smp and clog = clog and a = a
        and e = ValueError and sys = sys and fs = fs] by simp
next
  case False
  then obtain st' where "process_files smp clog a init_state (input a) = Inr st'"
      "routes_new st' = routes_new init_state"
    using process_files_nonpos [OF assms, where fs = "input a" and smp = smp and clog = clog
        and st = init_state] by auto
  then show ?thesis
    using False by (auto simp add: init_state_def)
qed

theorem nonpositive_length_not_rejected_witness:
  "max_route_length (example_args [one_point_file ''a.gpx''] 0) \<le> 0
   \<and> process_files no_simplify example_clog (example_args [one_point_file ''a.gpx''] 0) init_state
        (input (example_args [one_point_file ''a.gpx''] 0)) = Inl ValueError
   \<and> isl (main example_os no_simplify example_clog (example_args [one_point_file ''a.gpx''] 0) {})
   \<and> max_route_length (example_args [one_point_file ''a.gpx''] (- 5)) \<le> 0
   \<and> (\<exists>st'. process_files no_simplify example_clog (example_args [one_point_file ''a.gpx''] (- 5))
        init_state (input (example_args [one_point_file ''a.gpx''] (- 5))) = Inr st'
        \<and> routes_new st' = [])"
proof -
  have h0: "max_route_length (example_args [one_point_file ''a.gpx''] 0) \<le> 0"
    and h5: "max_route_length (example_args [one_point_file ''a.gpx''] (- 5)) \<le> 0"
    by (simp_all add: example_args_def)
  have seg: "max_route_length (example_args [one_point_file ''a.gpx''] 0) = 0
      \<and> (\<exists>f \<in> set (input (example_args [one_point_file ''a.gpx''] 0)).
            \<exists>t \<in> set (loaded_tracks no_simplify (example_args [one_point_file ''a.gpx''] 0) f). t \<noteq> [])"
    by (simp add: example_args_def loaded_tracks_def one_point_file_def)
  have neg: "max_route_length (example_args [one_point_file ''a.gpx''] (- 5)) \<noteq> 0"
    by (simp add: example_args_def)
  show ?thesis
    using h0 h5 seg neg
      nonpositive_length_not_rejected [OF h0, where smp = no_simplify and clog = example_clog
        and sys = example_os and fs = "{}"]
      nonpositive_length_not_rejected [OF h5, where smp = no_simplify and clog = example_clog
        and sys = example_os and fs = "{}"]
    by presburger
qed

text \<open>
  C9: the specification lets a run with a negative \<^verbatim>\<open>max_route_length\<close> still write an
  output file. In split mode the writer loops over the routes, and there is none: with
  the value -5 and \<^verbatim>\<open>--splitfiles\<close> the run ends without an exception and has written
  no file.
\<close>

theorem negative_length_split_mode_counterexample:
  "max_route_length ((example_args [one_point_file ''a.gpx''] (- 5))\<lparr>splitfiles := True\<rparr>) < 0
   \<and> main example_os no_simplify example_clog
        ((example_args [one_point_file ''a.gpx''] (- 5))\<lparr>splitfiles := True\<rparr>) {} =
       Inr ({''.''}, [])"
  by code_simp

text \<open>
  C9, amended: with a negative \<^verbatim>\<open>max_route_length\<close> the chunker produces no group for any
  segment and raises nothing, so every point is dropped and no route is created, and
  the run goes on to the writer once the directory is created. In the combined mode the
  writer writes its one output file, holding no route, and the run ends with the
  exception of that write if there is one; in split mode it writes no file. For a
  non-empty segment the groups reproduce the segment exactly when \<^verbatim>\<open>max_route_length\<close>
  is at least 1.
\<close>

theorem negative_length_drops_every_point:
  "(max_route_length a < 0 \<longrightarrow>
      subsegments seg (max_route_length a) = Inr []
      \<and> (\<exists>st'. process_files smp clog a init_state (input a) = Inr st' \<and> routes_new st' = [])
      \<and> (\<forall>fs1. makedirs sys (dirname (output_dir a)) fs = Inr fs1 \<longrightarrow>
            (if splitfiles a then main sys smp clog a fs = Inr (fs1, [])
             else main sys smp clog a fs =
               and_then
                 (write_file sys
                    (path_join (output_dir a)
                       (resolve_output a @ ''_route_split'' @ str_int (max_route_length a) @ ''.gpx''))
                    [] fs1)
                 (\<lambda>fs2. Inr (fs2,
                    [(path_join (output_dir a)
                        (resolve_output a @ ''_route_split'' @ str_int (max_route_length a) @ ''.gpx''),
                      [])])))))
   \<and> (seg \<noteq> [] \<longrightarrow>
        ((\<exists>gs. subsegments seg (max_route_length a) = Inr gs \<and> concat gs = seg)
           \<longleftrightarrow> 1 \<le> max_route_length a))"
proof -
  let ?M = "max_route_length a"
  let ?path = "path_join (output_dir a) (resolve_output a @ ''_route_split'' @ str_int ?M @ ''.gpx'')"
  have neg: "subsegments seg ?M = Inr []
      \<and> (\<exists>st'. process_files smp clog a init_state (input a) = Inr st' \<and> routes_new st' = [])
      \<and> (\<forall>fs1. makedirs sys (dirname (output_dir a)) fs = Inr fs1 \<longrightarrow>
            (if splitfiles a then main sys smp clog a fs = Inr (fs1, [])
             else main sys smp clog a fs =
               and_then (write_file sys ?path [] fs1) (\<lambda>fs2. Inr (fs2, [(?path, [])]))))"
    if M: "?M < 0"
  proof -
    have le: "?M \<le> 0" and ne: "?M \<noteq> 0"
      using M by simp_all
    obtain st' where st': "process_files smp clog a init_state (input a) = Inr st'"
        "routes_new st' = []"
      using process_files_nonpos [OF le, where fs = "input a" and smp = smp and clog = clog
          and st = init_state] ne
      by (auto simp add: init_state_def)
    have "if splitfiles a then main sys smp clog a fs = Inr (fs1, [])
          else main sys smp clog a fs =
            and_then (write_file sys ?path [] fs1) (\<lambda>fs2. Inr (fs2, [(?path, [])]))"
      if mk: "makedirs sys (dirname (output_dir a)) fs = Inr fs1" for fs1
      using main_step [OF mk st'(1)] st'(2)
      by (simp add: write_outputs_def combined_filename_def and_then_def split: sum.splits)
    then show ?thesis
      using subsegments_neg [OF M, of seg] st' by blast
  qed
  have iff: "(\<exists>gs. subsegments seg ?M = Inr gs \<and> concat gs = seg) \<longleftrightarrow> 1 \<le> ?M"
    if seg: "seg \<noteq> []"
  proof (cases "0 < ?M")
    case True
    then have "subsegments seg ?M = Inr (windows (nat ?M) seg)"
        "concat (windows (nat ?M) seg) = seg"
      by (simp_all add: subsegments_pos concat_windows)
    then show ?thesis
      using True by auto
  next
    case False
    then have "subsegments seg ?M = Inl ValueError \<or> subsegments seg ?M = Inr []"
      using subsegments_zero [of seg] subsegments_neg [of ?M seg] by (cases "?M = 0") auto
    then show ?thesis
      using False seg by auto
  qed
  show ?thesis
    using neg iff by blast
qed

theorem negative_length_drops_every_point_witness:
  "max_route_length (example_args [one_point_file ''a.gpx''] (- 5)) < 0
   \<and> \<not> splitfiles (example_args [one_point_file ''a.gpx''] (- 5))
   \<and> makedirs example_os (dirname (output_dir (example_args [one_point_file ''a.gpx''] (- 5)))) {}
       = Inr {''.''}
   \<and> [unnamed 1] \<noteq> []
   \<and> subsegments [unnamed 1] (max_route_length (example_args [one_point_file ''a.gpx''] (- 5))) = Inr []
   \<and> main example_os no_simplify example_clog (example_args [one_point_file ''a.gpx''] (- 5)) {} =
       and_then
         (write_file example_os
            (path_join (output_dir (example_args [one_point_file ''a.gpx''] (- 5)))
               (resolve_output (example_args [one_point_file ''a.gpx''] (- 5)) @ ''_route_split''
                  @ str_int (max_route_length (example_args [one_point_file ''a.gpx''] (- 5))) @ ''.gpx''))
            [] {''.''})
         (\<lambda>fs2. Inr (fs2,
            [(path_join (output_dir (example_args [one_point_file ''a.gpx''] (- 5)))
                (resolve_output (example_args [one_point_file ''a.gpx''] (- 5)) @ ''_route_split''
                   @ str_int (max_route_length (example_args [one_point_file ''a.gpx''] (- 5))) @ ''.gpx''),
              [])]))
   \<and> main example_os no_simplify example_clog (example_args [one_point_file ''a.gpx''] (- 5)) {} =
       Inr ({''.''}, [(''./a_route_split-5.gpx'', [])])
   \<and> \<not> (\<exists>gs. subsegments [unnamed 1] (max_route_length (example_args [one_point_file ''a.gpx''] (- 5))) = Inr gs
          \<and> concat gs = [unnamed 1])"
proof -
  have h: "max_route_length (example_args [one_point_file ''a.gpx''] (- 5)) < 0"
    "\<not> splitfiles (example_args [one_point_file ''a.gpx''] (- 5))"
    "\<not> 1 \<le> max_route_length (example_args [one_point_file ''a.gpx''] (- 5))"
    by (simp_all add: example_args_def)
  have d: "makedirs example_os (dirname (output_dir (example_args [one_point_file ''a.gpx''] (- 5)))) {}
       = Inr {''.''}"
    by code_simp
  have e: "main example_os no_simplify example_clog (example_args [one_point_file ''a.gpx''] (- 5)) {} =
       Inr ({''.''}, [(''./a_route_split-5.gpx'', [])])"
    by code_simp
  have s: "[unnamed 1] \<noteq> []"
    by simp
  show ?thesis
    using h d e s
      negative_length_drops_every_point [where a = "example_args [one_point_file ''a.gpx''] (- 5)"
        and seg = "[unnamed 1]" and smp = no_simplify and clog = example_clog
        and sys = example_os and fs = "{}"]
    by presburger
qed

subsection \<open>The output directory\<close>

text \<open>
  C5: the script creates \<^verbatim>\<open>os.path.dirname(args.output_dir)\<close>, not
  \<^verbatim>\<open>args.output_dir\<close>. For an output directory written without a trailing slash this
  is its parent. In a fresh working directory, \<^verbatim>\<open>--output_dir out\<close> asks for the empty
  path to be created and the run ends with \<^verbatim>\<open>FileNotFoundError\<close> at line 73; with
  \<^verbatim>\<open>--output_dir a/b\<close> only \<^verbatim>\<open>a\<close> is created and the run ends with
  \<^verbatim>\<open>FileNotFoundError\<close> when it opens the output file in \<^verbatim>\<open>a/b\<close>; with
  \<^verbatim>\<open>--output_dir a/b/\<close> the directory \<^verbatim>\<open>a/b\<close> is created and the file written.
\<close>

theorem output_dir_without_trailing_slash:
  "dirname ''out'' = []
   \<and> main example_os no_simplify example_clog
        ((example_args [one_point_file ''a.gpx''] 250)\<lparr>output_dir := ''out''\<rparr>) {}
       = Inl FileNotFoundError
   \<and> dirname ''a/b'' = ''a''
   \<and> makedirs example_os (dirname ''a/b'') {} = Inr {''a''}
   \<and> main example_os no_simplify example_clog
        ((example_args [one_point_file ''a.gpx''] 250)\<lparr>output_dir := ''a/b''\<rparr>) {}
       = Inl FileNotFoundError
   \<and> main example_os no_simplify example_clog
        ((example_args [one_point_file ''a.gpx''] 250)\<lparr>output_dir := ''a/b/''\<rparr>) {}
       = Inr ({''a/b''},
              [(''a/b/a_route_split250.gpx'',
                [\<lparr>route_name = ''000_a'', route_points = [named 1 ''001'']\<rparr>])])"
  by code_simp

end
